theory Spec2Isabelle
  imports Complex_Main "HOL-Library.Sublist"
begin

section \<open>The content block model (types.ts)\<close>

text \<open>
  \<^verbatim>\<open>BlockType\<close> is a TypeScript string enum: at run time the \<^verbatim>\<open>type\<close> field of a
  block is a string, and a block loaded from storage may carry a string that is none of
  the enum's values. The enum members are therefore string constants; \<^verbatim>\<open>BlockType.Image\<close>
  is called \<open>ImageBlock\<close>.
\<close>

type_synonym BlockType = string

definition Paragraph :: BlockType where "Paragraph = ''paragraph''"
definition Heading1 :: BlockType where "Heading1 = ''h1''"
definition Heading2 :: BlockType where "Heading2 = ''h2''"
definition Heading3 :: BlockType where "Heading3 = ''h3''"
definition ImageBlock :: BlockType where "ImageBlock = ''image''"
definition Video :: BlockType where "Video = ''video''"
definition Quote :: BlockType where "Quote = ''quote''"
definition List :: BlockType where "List = ''list''"
definition OrderedList :: BlockType where "OrderedList = ''ordered-list''"
definition Code :: BlockType where "Code = ''code''"
definition Divider :: BlockType where "Divider = ''divider''"

datatype TextAlignment = Left | Center | Right

text \<open>
  \<^verbatim>\<open>interface ContentBlock\<close>. The optional fields (\<^verbatim>\<open>src?\<close>, \<^verbatim>\<open>width?\<close>, ...) are
  options, \<open>None\<close> standing for \<^verbatim>\<open>undefined\<close>. The field \<^verbatim>\<open>id\<close> is called
  \<open>block_id\<close> and \<^verbatim>\<open>type\<close> is called \<open>block_type\<close>.
\<close>

record ContentBlock =
  block_id :: string
  block_type :: BlockType
  content :: string
  src :: "string option"
  width :: "real option"
  caption :: "string option"
  align :: "TextAlignment option"
  language :: "string option"

text \<open>
  \<^verbatim>\<open>Partial<ContentBlock>\<close>: every key may be absent (\<open>None\<close>). A key of an optional
  field that is present may still hold \<^verbatim>\<open>undefined\<close> (\<open>Some None\<close>).
\<close>

record Partial_ContentBlock =
  p_id :: "string option"
  p_type :: "BlockType option"
  p_content :: "string option"
  p_src :: "string option option"
  p_width :: "real option option"
  p_caption :: "string option option"
  p_align :: "TextAlignment option option"
  p_language :: "string option option"

definition no_updates :: Partial_ContentBlock where
  "no_updates = \<lparr> p_id = None, p_type = None, p_content = None, p_src = None,
     p_width = None, p_caption = None, p_align = None, p_language = None \<rparr>"

text \<open>The object spread \<^verbatim>\<open>{ ...b, ...updates }\<close>: keys of \<open>updates\<close> win.\<close>

definition spread :: "ContentBlock \<Rightarrow> Partial_ContentBlock \<Rightarrow> ContentBlock" where
  "spread b u = \<lparr>
     block_id = (case p_id u of None \<Rightarrow> block_id b | Some v \<Rightarrow> v),
     block_type = (case p_type u of None \<Rightarrow> block_type b | Some v \<Rightarrow> v),
     content = (case p_content u of None \<Rightarrow> content b | Some v \<Rightarrow> v),
     src = (case p_src u of None \<Rightarrow> src b | Some v \<Rightarrow> v),
     width = (case p_width u of None \<Rightarrow> width b | Some v \<Rightarrow> v),
     caption = (case p_caption u of None \<Rightarrow> caption b | Some v \<Rightarrow> v),
     align = (case p_align u of None \<Rightarrow> align b | Some v \<Rightarrow> v),
     language = (case p_language u of None \<Rightarrow> language b | Some v \<Rightarrow> v) \<rparr>"

section \<open>Array and string helpers\<close>

text \<open>\<^verbatim>\<open>Array.prototype.findIndex\<close>: the first index whose element passes, or \<open>-1\<close>.\<close>

fun findIndex :: "('a \<Rightarrow> bool) \<Rightarrow> 'a list \<Rightarrow> int" where
  "findIndex P [] = -1"
| "findIndex P (x # xs) =
     (if P x then 0 else (let r = findIndex P xs in if r < 0 then -1 else r + 1))"

text \<open>
  \<^verbatim>\<open>xs.splice(start, 0, x)\<close>: a negative \<open>start\<close> counts from the end (not below 0), a
  \<open>start\<close> beyond the length is the length.
\<close>

definition splice_insert :: "'a list \<Rightarrow> int \<Rightarrow> 'a \<Rightarrow> 'a list" where
  "splice_insert xs start x =
     (let n = int (length xs);
          s = (if start < 0 then max (n + start) 0 else min start n)
      in take (nat s) xs @ [x] @ drop (nat s) xs)"

text \<open>\<^verbatim>\<open>String.prototype.indexOf\<close>: where the substring first starts, or \<open>-1\<close>.\<close>

fun indexOf :: "string \<Rightarrow> string \<Rightarrow> int" where
  "indexOf [] sub = (if sub = [] then 0 else -1)"
| "indexOf (c # cs) sub =
     (if prefix sub (c # cs) then 0
      else (let r = indexOf cs sub in if r < 0 then -1 else r + 1))"

text \<open>
  \<^verbatim>\<open>x || d\<close> on an optional number (\<^verbatim>\<open>undefined\<close> and \<open>0\<close> are falsy) and on an
  optional string (\<^verbatim>\<open>undefined\<close> and the empty string are falsy).
\<close>

definition num_or :: "real option \<Rightarrow> real \<Rightarrow> real" where
  "num_or x d = (case x of None \<Rightarrow> d | Some v \<Rightarrow> if v = 0 then d else v)"

definition str_or :: "string option \<Rightarrow> string \<Rightarrow> string" where
  "str_or x d = (case x of None \<Rightarrow> d | Some v \<Rightarrow> if v = [] then d else v)"

section \<open>Block management (BlockEditor.tsx)\<close>

text \<open>
  A handler of the component is modelled by the calls it makes, in order, on the host's
  \<^verbatim>\<open>onChange\<close> callback and on the component's own state setters. A handler that
  returns at once makes no call: the empty list. \<open>SetTimeout\<close> is a call deferred by a
  timer; \<open>TypeError\<close> marks a handler aborted by reading a property of \<^verbatim>\<open>undefined\<close>.
\<close>

datatype effect =
    OnChange "ContentBlock list"
  | SetActiveBlockId "string option"
  | SetMenuOpenBlockId "string option"
  | SetTimeout effect nat
  | TypeError

definition updateBlock ::
  "bool \<Rightarrow> ContentBlock list \<Rightarrow> string \<Rightarrow> Partial_ContentBlock \<Rightarrow> effect list" where
  "updateBlock readOnly blocks i updates =
     (if readOnly then []
      else let newBlocks = map (\<lambda>b. if block_id b = i then spread b updates else b) blocks
           in [OnChange newBlocks, SetMenuOpenBlockId None])"

text \<open>
  The object literal \<^verbatim>\<open>newBlock\<close> of \<^verbatim>\<open>addBlock\<close>. \<open>newId\<close> is the value of
  \<^verbatim>\<open>Math.random().toString(36).substr(2, 9)\<close>, which the handler draws from the
  environment and compares with nothing.
\<close>

definition newBlock :: "BlockType \<Rightarrow> string \<Rightarrow> ContentBlock" where
  "newBlock ty newId = \<lparr> block_id = newId, block_type = ty, content = '''', src = None,
                         width = Some 100, caption = None, align = Some Left,
                         language = None \<rparr>"

definition addBlock ::
  "bool \<Rightarrow> ContentBlock list \<Rightarrow> string \<Rightarrow> BlockType \<Rightarrow> string \<Rightarrow> effect list" where
  "addBlock readOnly blocks afterId ty newId =
     (if readOnly then []
      else let index = findIndex (\<lambda>b. block_id b = afterId) blocks;
               newBlocks = splice_insert blocks (index + 1) (newBlock ty newId)
           in [OnChange newBlocks, SetTimeout (SetActiveBlockId (Some newId)) 10])"

definition removeBlock :: "bool \<Rightarrow> ContentBlock list \<Rightarrow> string \<Rightarrow> effect list" where
  "removeBlock readOnly blocks i =
     (if readOnly \<or> length blocks \<le> 1 then []
      else let index = findIndex (\<lambda>b. block_id b = i) blocks;
               newBlocks = filter (\<lambda>b. block_id b \<noteq> i) blocks
           in OnChange newBlocks #
              (if index > 0 then
                 (if nat (index - 1) < length newBlocks
                  then [SetActiveBlockId (Some (block_id (newBlocks ! nat (index - 1))))]
                  else [TypeError])
               else []))"

section \<open>The host\<close>

text \<open>
  The editing screen passes \<^verbatim>\<open>onChange = setBlocks\<close>, so the argument of an
  \<^verbatim>\<open>onChange\<close> call is the \<^verbatim>\<open>blocks\<close> prop of the next render. A timer is taken to fire
  before the next handler runs.
\<close>

record Editor =
  blocks :: "ContentBlock list"
  readOnly :: bool
  activeBlockId :: "string option"
  menuOpenBlockId :: "string option"

fun perform :: "effect \<Rightarrow> Editor \<Rightarrow> Editor" where
  "perform (OnChange bs) e = e\<lparr>blocks := bs\<rparr>"
| "perform (SetActiveBlockId a) e = e\<lparr>activeBlockId := a\<rparr>"
| "perform (SetMenuOpenBlockId m) e = e\<lparr>menuOpenBlockId := m\<rparr>"
| "perform (SetTimeout f ms) e = perform f e"
| "perform TypeError e = e"

datatype action =
    AddBlock string BlockType string
  | RemoveBlock string
  | UpdateBlock string Partial_ContentBlock

fun handle :: "action \<Rightarrow> Editor \<Rightarrow> Editor" where
  "handle (AddBlock afterId ty newId) e =
     fold perform (addBlock (readOnly e) (blocks e) afterId ty newId) e"
| "handle (RemoveBlock i) e = fold perform (removeBlock (readOnly e) (blocks e) i) e"
| "handle (UpdateBlock i u) e = fold perform (updateBlock (readOnly e) (blocks e) i u) e"

definition run :: "action list \<Rightarrow> Editor \<Rightarrow> Editor" where
  "run acts e = fold handle acts e"

text \<open>
  \<^verbatim>\<open>retype\<close> of the specification is \<^verbatim>\<open>updateBlock(block.id, { type: T })\<close>, as the
  entries of the type menu call it.
\<close>

definition retype :: "string \<Rightarrow> BlockType \<Rightarrow> Editor \<Rightarrow> Editor" where
  "retype i ty e = handle (UpdateBlock i (no_updates\<lparr>p_type := Some ty\<rparr>)) e"

text \<open>The component as first rendered: every \<^verbatim>\<open>useState\<close> starts at \<^verbatim>\<open>null\<close>.\<close>

definition BlockEditor :: "ContentBlock list \<Rightarrow> bool \<Rightarrow> Editor" where
  "BlockEditor bs ro = \<lparr> blocks = bs, readOnly = ro, activeBlockId = None, menuOpenBlockId = None \<rparr>"

text \<open>
  The shape \<^verbatim>\<open>{ id, type, content, width: 100 }\<close> of the block literals of the
  application, and the sequence a new post starts with in the editing screen.
\<close>

definition plain_block :: "string \<Rightarrow> BlockType \<Rightarrow> string \<Rightarrow> ContentBlock" where
  "plain_block i ty c = \<lparr> block_id = i, block_type = ty, content = c, src = None,
                          width = Some 100, caption = None, align = None, language = None \<rparr>"

definition initial_blocks :: "ContentBlock list" where
  "initial_blocks = [plain_block ''1'' Paragraph '''']"

text \<open>A post body of three blocks, after the sample post of the application.\<close>

definition three_blocks :: "ContentBlock list" where
  "three_blocks = [plain_block ''b1'' Heading1 ''Arrival in Arashiyama'',
                   plain_block ''b2'' Paragraph ''Kyoto feels different.'',
                   plain_block ''b4'' Quote ''Beauty lies in the spaces between things.'']"

text \<open>
  When a run keeps ids apart: the id drawn for a new block is not in the sequence, and an
  update carries no \<^verbatim>\<open>id\<close> key (no caller passes one).
\<close>

definition id_safe :: "action \<Rightarrow> Editor \<Rightarrow> bool" where
  "id_safe a e =
     (case a of
        AddBlock afterId ty newId \<Rightarrow> newId \<notin> set (map block_id (blocks e))
      | RemoveBlock i \<Rightarrow> True
      | UpdateBlock i u \<Rightarrow> p_id u = None)"

fun ids_safe :: "action list \<Rightarrow> Editor \<Rightarrow> bool" where
  "ids_safe [] e = True"
| "ids_safe (a # acts) e = (id_safe a e \<and> ids_safe acts (handle a e))"

section \<open>The editable text surface (RichText)\<close>

text \<open>
  The state of one mounted \<^verbatim>\<open>RichText\<close>: its \<^verbatim>\<open>html\<close> prop, which is the
  \<^verbatim>\<open>content\<close> of its block as the host holds it, the \<^verbatim>\<open>innerHTML\<close> of its element, and
  whether the element is \<^verbatim>\<open>document.activeElement\<close>.
\<close>

record Surface =
  html :: string
  innerHTML :: string
  focused :: bool

text \<open>The effect on \<^verbatim>\<open>[html]\<close>: the element is written only while it is not focused.\<close>

definition sync_effect :: "Surface \<Rightarrow> Surface" where
  "sync_effect s =
     (if html s \<noteq> innerHTML s then (if \<not> focused s then s\<lparr>innerHTML := html s\<rparr> else s)
      else s)"

text \<open>The mount effect writes the element whatever the focus.\<close>

definition mount :: "string \<Rightarrow> Surface" where
  "mount h = \<lparr> html = h, innerHTML = h, focused = False \<rparr>"

text \<open>
  The component is rendered with the value \<open>v\<close> of the prop. The effect runs only when
  the dependency \<^verbatim>\<open>html\<close> has changed.
\<close>

definition rerender :: "string \<Rightarrow> Surface \<Rightarrow> Surface" where
  "rerender v s = (if v = html s then s else sync_effect (s\<lparr>html := v\<rparr>))"

text \<open>
  A change of the block's content from outside the surface (a programmatic update,
  generated text): the host renders the surface with the new content.
\<close>

definition external_change :: "string \<Rightarrow> Surface \<Rightarrow> Surface" where
  "external_change v s = rerender v s"

text \<open>
  \<^verbatim>\<open>handleInput\<close> passes the element's markup to \<^verbatim>\<open>onChange\<close>, which is
  \<^verbatim>\<open>updateBlock(block.id, { content: val })\<close>: unless the editor is read-only the host's
  content becomes the element's markup, and the surface is rendered with it.
\<close>

definition handleInput :: "bool \<Rightarrow> Surface \<Rightarrow> Surface" where
  "handleInput ro s = (if ro then s else rerender (innerHTML s) s)"

text \<open>A local edit changes the element and fires \<^verbatim>\<open>onInput\<close>.\<close>

definition local_edit :: "bool \<Rightarrow> string \<Rightarrow> Surface \<Rightarrow> Surface" where
  "local_edit ro v s = handleInput ro (s\<lparr>innerHTML := v\<rparr>)"

definition focus :: "Surface \<Rightarrow> Surface" where
  "focus s = s\<lparr>focused := True\<rparr>"

text \<open>Losing focus fires \<^verbatim>\<open>onBlur\<close>, which is \<^verbatim>\<open>handleInput\<close> too.\<close>

definition blur :: "bool \<Rightarrow> Surface \<Rightarrow> Surface" where
  "blur ro s = handleInput ro (s\<lparr>focused := False\<rparr>)"

section \<open>Pasting an image (handlePaste)\<close>

text \<open>
  A file of the clipboard is modelled by what \<^verbatim>\<open>FileReader.readAsDataURL\<close> makes of it:
  the data URI handed to \<^verbatim>\<open>onload\<close>, or \<open>None\<close> when the read fails and \<^verbatim>\<open>onload\<close> never
  fires. \<^verbatim>\<open>getAsFile()\<close> is \<open>None\<close> for an item that is not a file.
\<close>

datatype File = File (readAsDataURL: "string option")

record ClipboardItem =
  item_type :: string
  getAsFile :: "File option"

datatype paste_outcome = Default | Prevented "File option"

text \<open>The loop over \<^verbatim>\<open>e.clipboardData.items\<close>: it stops at the first item whose type contains \<^verbatim>\<open>image\<close>.\<close>

fun handlePaste :: "ClipboardItem list \<Rightarrow> paste_outcome" where
  "handlePaste [] = Default"
| "handlePaste (it # items) =
     (if indexOf (item_type it) ''image'' \<noteq> -1 then Prevented (getAsFile it)
      else handlePaste items)"

definition reader_onload ::
  "bool \<Rightarrow> ContentBlock list \<Rightarrow> string \<Rightarrow> string \<Rightarrow> effect list" where
  "reader_onload ro bs i result =
     updateBlock ro bs i
       (no_updates\<lparr>p_type := Some ImageBlock, p_src := Some (Some result), p_content := Some ''''\<rparr>)"

text \<open>
  A paste as a whole: whether the default action was prevented, and the calls made once
  the reader has loaded.
\<close>

definition paste ::
  "bool \<Rightarrow> ContentBlock list \<Rightarrow> string \<Rightarrow> ClipboardItem list \<Rightarrow> bool \<times> effect list" where
  "paste ro bs i items =
     (case handlePaste items of
        Default \<Rightarrow> (False, [])
      | Prevented None \<Rightarrow> (True, [])
      | Prevented (Some f) \<Rightarrow>
          (True, case readAsDataURL f of None \<Rightarrow> [] | Some result \<Rightarrow> reader_onload ro bs i result))"

section \<open>Resizing media (MediaBlock.handleResize)\<close>

text \<open>
  What \<^verbatim>\<open>handleResize\<close> fixes at mouse-down. Pixel positions and widths are reals; the
  rounding of the source's floating-point division is not modelled.
\<close>

record Drag =
  startX :: real
  startWidth :: real
  parentWidth :: real

definition handleResize :: "bool \<Rightarrow> real \<Rightarrow> real option \<Rightarrow> real option \<Rightarrow> Drag option" where
  "handleResize ro clientX offsetWidth parentOffsetWidth =
     (if ro then None
      else Some \<lparr> startX = clientX, startWidth = num_or offsetWidth 0,
                  parentWidth = num_or parentOffsetWidth 1 \<rparr>)"

text \<open>The width a mouse position asks for, in percent of the parent.\<close>

definition attempted_width :: "Drag \<Rightarrow> real \<Rightarrow> real" where
  "attempted_width d clientX =
     (let diff = clientX - startX d; newWidthPx = startWidth d + diff
      in (newWidthPx / parentWidth d) * 100)"

definition onMouseMove ::
  "bool \<Rightarrow> ContentBlock list \<Rightarrow> ContentBlock \<Rightarrow> Drag \<Rightarrow> real \<Rightarrow> effect list" where
  "onMouseMove ro bs block d clientX =
     (let newWidthPercent = min 100 (max 20 (attempted_width d clientX))
      in updateBlock ro bs (block_id block) (no_updates\<lparr>p_width := Some (Some newWidthPercent)\<rparr>))"

section \<open>Rendering\<close>

text \<open>What a renderer produces, without class names, styles and placeholders.\<close>

datatype rendered =
    RichText string string
  | MediaBlock ContentBlock bool
  | Element string "rendered list"
  | Text string
  | Img string real

text \<open>
  \<^verbatim>\<open>renderBlockContent\<close> of the block editor, used in editing and in read-only mode
  alike. \<open>RichText tag h\<close> is the editable surface with that tag name and markup.
\<close>

definition renderBlockContent :: "ContentBlock \<Rightarrow> rendered" where
  "renderBlockContent block =
     (if block_type block = Heading1 then RichText ''h1'' (content block)
      else if block_type block = Heading2 then RichText ''h2'' (content block)
      else if block_type block = Heading3 then RichText ''h3'' (content block)
      else if block_type block = Quote then
        Element ''div'' [Element ''Icons.Quote'' [], RichText ''div'' (content block)]
      else if block_type block = Code then
        Element ''div'' [Element ''div'' [Text (str_or (language block) ''Code'')],
                         RichText ''pre'' (content block)]
      else if block_type block = List then
        Element ''div'' [Element ''div'' [], RichText ''div'' (content block)]
      else if block_type block = OrderedList then
        Element ''div'' [Element ''span'' [Text ''1.''], RichText ''div'' (content block)]
      else if block_type block = ImageBlock then MediaBlock block False
      else if block_type block = Video then MediaBlock block True
      else if block_type block = Divider then Element ''hr'' []
      else RichText ''div'' (content block))"

text \<open>
  The switch of \<^verbatim>\<open>PostDetailView\<close>, the public post page; \<open>None\<close> is \<^verbatim>\<open>null\<close>, for
  which nothing is rendered.
\<close>

definition PostDetailView_block :: "ContentBlock \<Rightarrow> rendered option" where
  "PostDetailView_block block =
     (if block_type block = Heading1 then Some (Element ''h2'' [Text (content block)])
      else if block_type block = Heading2 then Some (Element ''h3'' [Text (content block)])
      else if block_type block = Paragraph then Some (Element ''p'' [Text (content block)])
      else if block_type block = Quote then
        Some (Element ''blockquote'' [Text [CHR 0x22], Text (content block), Text [CHR 0x22]])
      else if block_type block = ImageBlock then
        Some (Element ''figure''
               (Img (str_or (src block) ''https://picsum.photos/800/400'')
                    (num_or (width block) 100) #
                (case caption block of
                   None \<Rightarrow> []
                 | Some c \<Rightarrow> if c = [] then [Text c] else [Element ''figcaption'' [Text c]])))
      else None)"

text \<open>The page body: \<^verbatim>\<open>post.blocks.map(...)\<close>, of which the \<^verbatim>\<open>null\<close> entries show nothing.\<close>

definition PostDetailView_blocks :: "ContentBlock list \<Rightarrow> rendered list" where
  "PostDetailView_blocks bs = List.map_filter PostDetailView_block bs"

section \<open>Facts about the helpers\<close>

lemmas BlockType_defs =
  Paragraph_def Heading1_def Heading2_def Heading3_def ImageBlock_def Video_def
  Quote_def List_def OrderedList_def Code_def Divider_def

subsection \<open>findIndex\<close>

lemma findIndex_none: "(\<forall>x\<in>set xs. \<not> P x) \<Longrightarrow> findIndex P xs = -1"
  by (induction xs) (auto simp: Let_def)

lemma findIndex_first:
  "i < length xs \<Longrightarrow> P (xs ! i) \<Longrightarrow> (\<forall>j<i. \<not> P (xs ! j)) \<Longrightarrow> findIndex P xs = int i"
proof (induction xs arbitrary: i)
  case Nil
  then show ?case by simp
next
  case (Cons x xs)
  show ?case
  proof (cases i)
    case 0
    with Cons.prems show ?thesis by simp
  next
    case (Suc k)
    have nP: "\<not> P x"
      using Cons.prems(3)[rule_format, of 0] Suc by simp
    have "findIndex P xs = int k"
    proof (rule Cons.IH)
      show "k < length xs" using Cons.prems(1) Suc by simp
      show "P (xs ! k)" using Cons.prems(2) Suc by simp
      show "\<forall>j<k. \<not> P (xs ! j)"
      proof (intro allI impI)
        fix j assume "j < k"
        then have "Suc j < i" using Suc by simp
        from Cons.prems(3)[rule_format, OF this] show "\<not> P (xs ! j)" by simp
      qed
    qed
    with nP Suc show ?thesis by (simp add: Let_def)
  qed
qed

lemma findIndex_distinct:
  assumes "distinct (map f xs)" and "i < length xs"
  shows "findIndex (\<lambda>b. f b = f (xs ! i)) xs = int i"
proof (rule findIndex_first)
  show "i < length xs" by fact
  show "f (xs ! i) = f (xs ! i)" by simp
  show "\<forall>j<i. f (xs ! j) \<noteq> f (xs ! i)"
  proof (intro allI impI)
    fix j assume "j < i"
    then have j: "j < length (map f xs)" "j \<noteq> i" using assms(2) by simp_all
    have i: "i < length (map f xs)" using assms(2) by simp
    from assms(1) j i have "map f xs ! j \<noteq> map f xs ! i"
      by (simp only: distinct_conv_nth) blast
    then show "f (xs ! j) \<noteq> f (xs ! i)"
      using j(1) i by simp
  qed
qed

subsection \<open>splice and filter\<close>

lemma splice_insert_front: "splice_insert xs 0 x = x # xs"
  by (simp add: splice_insert_def)

lemma set_splice_insert: "set (splice_insert xs s x) = insert x (set xs)"
proof -
  have "set (take n xs) \<union> set (drop n xs) = set xs" for n
    by (metis append_take_drop_id set_append)
  then show ?thesis by (auto simp: splice_insert_def Let_def)
qed

lemma length_splice_insert: "length (splice_insert xs s x) = Suc (length xs)"
  by (auto simp: splice_insert_def Let_def)

lemma map_splice_insert: "map f (splice_insert xs s x) = splice_insert (map f xs) s (f x)"
  by (simp add: splice_insert_def Let_def take_map drop_map)

lemma distinct_splice_insert:
  assumes "distinct xs" and "x \<notin> set xs"
  shows "distinct (splice_insert xs s x)"
proof -
  have "distinct (take k xs @ [x] @ drop k xs)" for k
  proof -
    have "distinct (take k xs) \<and> distinct (drop k xs) \<and> set (take k xs) \<inter> set (drop k xs) = {}"
      using assms(1) by (metis append_take_drop_id distinct_append)
    moreover have "x \<notin> set (take k xs)" "x \<notin> set (drop k xs)"
      using assms(2) by (auto dest: in_set_takeD in_set_dropD)
    ultimately show ?thesis by auto
  qed
  then show ?thesis by (simp add: splice_insert_def Let_def)
qed

lemma filter_distinct_length:
  assumes "distinct (map f xs)"
  shows "length xs \<le> Suc (length (filter (\<lambda>b. f b \<noteq> i) xs))"
  using assms
proof (induction xs)
  case Nil
  then show ?case by simp
next
  case (Cons x xs)
  show ?case
  proof (cases "f x = i")
    case True
    then have "\<forall>b\<in>set xs. f b \<noteq> i" using Cons.prems by (force simp: image_iff)
    then have "filter (\<lambda>b. f b \<noteq> i) xs = xs" by simp
    with True show ?thesis by simp
  next
    case False
    with Cons show ?thesis by simp
  qed
qed

subsection \<open>spread\<close>

lemma spread_no_id: "p_id u = None \<Longrightarrow> block_id (spread b u) = block_id b"
  by (simp add: spread_def)

lemma spread_type_only:
  "spread b (no_updates\<lparr>p_type := Some ty\<rparr>) = b\<lparr>block_type := ty\<rparr>"
  by (simp add: spread_def no_updates_def)

lemma map_id_update:
  "p_id u = None \<Longrightarrow>
   map block_id (map (\<lambda>b. if block_id b = i then spread b u else b) bs) = map block_id bs"
  by (induction bs) (simp_all add: spread_no_id)

subsection \<open>handle\<close>

lemma blocks_handle_AddBlock:
  "blocks (handle (AddBlock afterId ty newId) e) =
     (if readOnly e then blocks e
      else splice_insert (blocks e) (findIndex (\<lambda>b. block_id b = afterId) (blocks e) + 1)
             (newBlock ty newId))"
  by (simp add: addBlock_def Let_def)

lemma blocks_handle_RemoveBlock:
  "blocks (handle (RemoveBlock i) e) =
     (if readOnly e \<or> length (blocks e) \<le> 1 then blocks e
      else filter (\<lambda>b. block_id b \<noteq> i) (blocks e))"
  by (simp add: removeBlock_def Let_def)

lemma blocks_handle_UpdateBlock:
  "blocks (handle (UpdateBlock i u) e) =
     (if readOnly e then blocks e
      else map (\<lambda>b. if block_id b = i then spread b u else b) (blocks e))"
  by (simp add: updateBlock_def Let_def)

lemma readOnly_handle: "readOnly (handle a e) = readOnly e"
  by (cases a) (simp_all add: addBlock_def removeBlock_def updateBlock_def Let_def)

lemma handle_distinct:
  assumes "distinct (map block_id (blocks e))" and "id_safe a e"
  shows "distinct (map block_id (blocks (handle a e)))"
proof (cases a)
  case (AddBlock afterId ty newId)
  have "block_id (newBlock ty newId) = newId" by (simp add: newBlock_def)
  with assms AddBlock show ?thesis
    by (simp add: blocks_handle_AddBlock map_splice_insert id_safe_def
          distinct_splice_insert del: handle.simps)
next
  case (RemoveBlock i)
  with assms show ?thesis
    by (simp add: blocks_handle_RemoveBlock distinct_map_filter del: handle.simps)
next
  case (UpdateBlock i u)
  with assms(2) have "p_id u = None" by (simp add: id_safe_def)
  then have "map block_id (blocks (handle (UpdateBlock i u) e)) = map block_id (blocks e)"
    by (cases "readOnly e") (simp_all only: blocks_handle_UpdateBlock map_id_update if_True if_False)
  with assms(1) UpdateBlock show ?thesis
    by (simp only:)
qed

lemma handle_nonempty:
  assumes "distinct (map block_id (blocks e))" and "blocks e \<noteq> []"
  shows "blocks (handle a e) \<noteq> []"
proof (cases a)
  case (AddBlock afterId ty newId)
  have "length (splice_insert xs s x) \<noteq> 0" for xs :: "ContentBlock list" and s x
    by (simp add: length_splice_insert)
  then have "splice_insert xs s x \<noteq> []" for xs :: "ContentBlock list" and s x
    by fastforce
  with assms AddBlock show ?thesis
    by (simp add: blocks_handle_AddBlock del: handle.simps)
next
  case (RemoveBlock i)
  show ?thesis
  proof (cases "readOnly e \<or> length (blocks e) \<le> 1")
    case True
    with assms RemoveBlock show ?thesis
      by (simp add: blocks_handle_RemoveBlock del: handle.simps)
  next
    case False
    then have "2 \<le> length (blocks e)" by simp
    with filter_distinct_length[OF assms(1), of i]
    have "0 < length (filter (\<lambda>b. block_id b \<noteq> i) (blocks e))" by linarith
    with False RemoveBlock show ?thesis
      by (simp add: blocks_handle_RemoveBlock del: handle.simps)
  qed
next
  case (UpdateBlock i u)
  with assms show ?thesis
    by (simp add: blocks_handle_UpdateBlock del: handle.simps)
qed

lemma run_invariant:
  "distinct (map block_id (blocks e)) \<Longrightarrow> blocks e \<noteq> [] \<Longrightarrow> ids_safe acts e \<Longrightarrow>
   distinct (map block_id (blocks (run acts e))) \<and> blocks (run acts e) \<noteq> []"
proof (induction acts arbitrary: e)
  case Nil
  then show ?case by (simp add: run_def)
next
  case (Cons a acts)
  from Cons.prems have safe: "id_safe a e" and rest: "ids_safe acts (handle a e)" by simp_all
  have d: "distinct (map block_id (blocks (handle a e)))"
    using Cons.prems(1) safe by (rule handle_distinct)
  have n: "blocks (handle a e) \<noteq> []"
    using Cons.prems(1,2) by (rule handle_nonempty)
  from Cons.IH[OF d n rest] show ?case by (simp add: run_def)
qed

lemma findIndex_found:
  "0 \<le> findIndex P xs \<Longrightarrow>
   nat (findIndex P xs) < length xs \<and> (\<forall>j < nat (findIndex P xs). \<not> P (xs ! j))"
proof (induction xs)
  case Nil
  then show ?case by simp
next
  case (Cons x xs)
  show ?case
  proof (cases "P x")
    case True
    then show ?thesis by simp
  next
    case False
    with Cons.prems have r: "0 \<le> findIndex P xs"
      by (simp add: Let_def split: if_splits)
    then have eq: "findIndex P (x # xs) = findIndex P xs + 1"
      using False by (simp add: Let_def)
    from Cons.IH[OF r] have len: "nat (findIndex P xs) < length xs"
      and before: "\<forall>j < nat (findIndex P xs). \<not> P (xs ! j)" by simp_all
    have n: "nat (findIndex P xs + 1) = Suc (nat (findIndex P xs))"
      using r by simp
    have "\<not> P ((x # xs) ! j)" if "j < Suc (nat (findIndex P xs))" for j
      using that False before by (cases j) simp_all
    with len show ?thesis by (simp only: eq n list.size) simp
  qed
qed

lemma filter_keeps_prefix:
  "k \<le> length xs \<Longrightarrow> (\<forall>j<k. P (xs ! j)) \<Longrightarrow> k \<le> length (filter P xs)"
proof (induction xs arbitrary: k)
  case Nil
  then show ?case by simp
next
  case (Cons x xs)
  show ?case
  proof (cases k)
    case 0
    then show ?thesis by simp
  next
    case (Suc m)
    have Px: "P x" using Cons.prems(2)[rule_format, of 0] Suc by simp
    have "m \<le> length (filter P xs)"
    proof (rule Cons.IH)
      show "m \<le> length xs" using Cons.prems(1) Suc by simp
      show "\<forall>j<m. P (xs ! j)"
      proof (intro allI impI)
        fix j assume "j < m"
        then have "Suc j < k" using Suc by simp
        from Cons.prems(2)[rule_format, OF this] show "P (xs ! j)" by simp
      qed
    qed
    with Px Suc show ?thesis by simp
  qed
qed

lemma removeBlock_no_TypeError: "TypeError \<notin> set (removeBlock ro bs i)"
proof (cases "0 < findIndex (\<lambda>b. block_id b = i) bs")
  case False
  then show ?thesis by (simp add: removeBlock_def Let_def)
next
  case True
  let ?k = "nat (findIndex (\<lambda>b. block_id b = i) bs)"
  from True have "0 \<le> findIndex (\<lambda>b. block_id b = i) bs" by simp
  from findIndex_found[OF this] have len: "?k < length bs"
    and before: "\<forall>j < ?k. block_id (bs ! j) \<noteq> i" by simp_all
  have "?k \<le> length (filter (\<lambda>b. block_id b \<noteq> i) bs)"
    using len before by (intro filter_keeps_prefix) simp_all
  moreover have "nat (findIndex (\<lambda>b. block_id b = i) bs - 1) < ?k"
    using True by simp
  ultimately have "nat (findIndex (\<lambda>b. block_id b = i) bs - 1)
                     < length (filter (\<lambda>b. block_id b \<noteq> i) bs)" by simp
  then show ?thesis by (simp add: removeBlock_def Let_def)
qed

lemma blocks_retype:
  "blocks (retype i ty e) =
     (if readOnly e then blocks e
      else map (\<lambda>b. if block_id b = i then b\<lparr>block_type := ty\<rparr> else b) (blocks e))"
  by (simp only: retype_def blocks_handle_UpdateBlock spread_type_only)

lemma readOnly_retype: "readOnly (retype i ty e) = readOnly e"
  by (simp only: retype_def readOnly_handle)

lemma filter_distinct_removes_one:
  assumes "distinct (map f xs)" and "i < length xs"
  shows "filter (\<lambda>b. f b \<noteq> f (xs ! i)) xs = take i xs @ drop (Suc i) xs"
proof -
  have split: "xs = take i xs @ xs ! i # drop (Suc i) xs"
    using assms(2) by (rule id_take_nth_drop)
  have "distinct (map f (take i xs) @ f (xs ! i) # map f (drop (Suc i) xs))"
    using assms(1) split by (metis list.simps(9) map_append)
  then have a: "\<forall>b\<in>set (take i xs). f b \<noteq> f (xs ! i)"
    and b: "\<forall>b\<in>set (drop (Suc i) xs). f b \<noteq> f (xs ! i)"
    by (force simp: image_iff)+
  have "filter (\<lambda>b. f b \<noteq> f (xs ! i)) (take i xs @ xs ! i # drop (Suc i) xs)
          = take i xs @ drop (Suc i) xs"
    using a b by simp
  with split show ?thesis by simp
qed

lemma handlePaste_find:
  "find (\<lambda>it. indexOf (item_type it) ''image'' \<noteq> -1) items = Some it \<Longrightarrow>
   handlePaste items = Prevented (getAsFile it)"
  by (induction items) (auto split: if_splits)

section \<open>The sequence is never emptied (C1)\<close>

text \<open>
  C1, as the specification states it, fails. Starting from the one block of a new post,
  two insertions whose drawn ids happen to be equal, then the removal of the first block
  and of the drawn id, leave an empty sequence: \<open>removeBlock\<close> filters out every block
  that carries the id.
\<close>

theorem sequence_emptied_counterexample:
  "blocks (BlockEditor initial_blocks False) \<noteq> [] \<and>
   blocks (run [AddBlock ''1'' Paragraph ''k3j9x2m1q'', AddBlock ''1'' Paragraph ''k3j9x2m1q'',
                RemoveBlock ''1'', RemoveBlock ''k3j9x2m1q'']
             (BlockEditor initial_blocks False)) = []"
  by (simp add: run_def BlockEditor_def initial_blocks_def plain_block_def addBlock_def
        removeBlock_def splice_insert_def newBlock_def)

text \<open>
  C1, amended. From a non-empty sequence with pairwise distinct ids, as long as no drawn
  id is already in the sequence and no update carries an id, every sequence reached by
  insertions, removals and updates has length at least 1. Removing the only remaining
  block makes no call and leaves the editor as it is.
\<close>

theorem sequence_never_empty:
  assumes "blocks e \<noteq> []" and "distinct (map block_id (blocks e))" and "ids_safe acts e"
  shows "1 \<le> length (blocks (run acts e)) \<and>
         (length (blocks (run acts e)) = 1 \<longrightarrow>
            removeBlock (readOnly (run acts e)) (blocks (run acts e)) i = [] \<and>
            handle (RemoveBlock i) (run acts e) = run acts e)"
proof -
  from run_invariant[OF assms(2,1,3)] have "blocks (run acts e) \<noteq> []" by simp
  then have "1 \<le> length (blocks (run acts e))"
    by (cases "blocks (run acts e)") simp_all
  then show ?thesis by (simp add: removeBlock_def)
qed

text \<open>
  C1, amended, on the new post: a heading is inserted after the first block, that block
  is removed, and the removal of the heading that remains is refused.
\<close>

theorem sequence_never_empty_witness:
  "blocks (BlockEditor initial_blocks False) \<noteq> [] \<and>
   distinct (map block_id (blocks (BlockEditor initial_blocks False))) \<and>
   ids_safe [AddBlock ''1'' Heading1 ''k3j9x2m1q'', RemoveBlock ''1'']
     (BlockEditor initial_blocks False) \<and>
   length (blocks (run [AddBlock ''1'' Heading1 ''k3j9x2m1q'', RemoveBlock ''1'']
                     (BlockEditor initial_blocks False))) = 1 \<and>
   handle (RemoveBlock ''k3j9x2m1q'')
     (run [AddBlock ''1'' Heading1 ''k3j9x2m1q'', RemoveBlock ''1'']
          (BlockEditor initial_blocks False))
   = run [AddBlock ''1'' Heading1 ''k3j9x2m1q'', RemoveBlock ''1'']
         (BlockEditor initial_blocks False)"
proof -
  let ?e = "BlockEditor initial_blocks False"
  let ?acts = "[AddBlock ''1'' Heading1 ''k3j9x2m1q'', RemoveBlock ''1'']"
  have n: "blocks ?e \<noteq> []" and d: "distinct (map block_id (blocks ?e))"
    by (simp_all add: BlockEditor_def initial_blocks_def)
  have s: "ids_safe ?acts ?e"
    by (simp add: id_safe_def BlockEditor_def initial_blocks_def plain_block_def)
  have l: "length (blocks (run ?acts ?e)) = 1"
    by (simp add: run_def BlockEditor_def initial_blocks_def plain_block_def addBlock_def
          removeBlock_def splice_insert_def newBlock_def)
  from sequence_never_empty[OF n d s, of "''k3j9x2m1q''"] n d s l show ?thesis by blast
qed

section \<open>Insertion after an id that is not there (C2)\<close>

text \<open>
  C2, as the specification states it, fails. For an \<open>afterId\<close> that no block carries,
  \<^verbatim>\<open>findIndex\<close> is \<open>-1\<close> and the new block is spliced in at index 0: it comes first, not
  last.
\<close>

theorem addBlock_unknown_afterId_counterexample:
  "''gone'' \<notin> set (map block_id three_blocks) \<and>
   addBlock False three_blocks ''gone'' Paragraph ''k3j9x2m1q''
     = [OnChange (newBlock Paragraph ''k3j9x2m1q'' # three_blocks),
        SetTimeout (SetActiveBlockId (Some ''k3j9x2m1q'')) 10] \<and>
   newBlock Paragraph ''k3j9x2m1q'' # three_blocks
     \<noteq> three_blocks @ [newBlock Paragraph ''k3j9x2m1q'']"
  by (simp add: addBlock_def three_blocks_def plain_block_def splice_insert_def newBlock_def
        BlockType_defs)

text \<open>
  C2, amended. When no block carries \<open>afterId\<close>, \<open>addBlock\<close> puts the new block at the
  front of the sequence; the existing blocks follow it, all of them and in their order.
\<close>

theorem addBlock_unknown_afterId_prepends:
  assumes "\<forall>b\<in>set bs. block_id b \<noteq> afterId"
  shows "addBlock False bs afterId ty newId
           = [OnChange (newBlock ty newId # bs),
              SetTimeout (SetActiveBlockId (Some newId)) 10]"
proof -
  have "findIndex (\<lambda>b. block_id b = afterId) bs = -1"
    using assms by (rule findIndex_none)
  then show ?thesis
    by (simp add: addBlock_def splice_insert_front)
qed

text \<open>
  C2, amended, on the three-block post.
\<close>

theorem addBlock_unknown_afterId_prepends_witness:
  "''gone'' \<notin> set (map block_id three_blocks) \<and>
   addBlock False three_blocks ''gone'' Paragraph ''k3j9x2m1q''
     = [OnChange (newBlock Paragraph ''k3j9x2m1q'' # three_blocks),
        SetTimeout (SetActiveBlockId (Some ''k3j9x2m1q'')) 10]"
proof -
  have h: "\<forall>b\<in>set three_blocks. block_id b \<noteq> ''gone''"
    by (simp add: three_blocks_def plain_block_def)
  have g: "''gone'' \<notin> set (map block_id three_blocks)"
    by (simp add: three_blocks_def plain_block_def)
  from addBlock_unknown_afterId_prepends[OF h] g show ?thesis by blast
qed

section \<open>Focus and external changes of the text surface (C3)\<close>

text \<open>
  C3, as the specification states it, fails in its second half. A focused surface showing
  \<open>a\<close> keeps \<open>a\<close> when the content is changed to \<open>b\<close> from outside. On blur the
  surface does not take up \<open>b\<close>: \<^verbatim>\<open>onBlur\<close> is \<^verbatim>\<open>handleInput\<close>, which writes the markup
  \<open>a\<close> back to the block, so the external value is gone.
\<close>

theorem external_change_lost_counterexample:
  "focused (focus (mount ''a'')) \<and>
   innerHTML (external_change ''b'' (focus (mount ''a''))) = ''a'' \<and>
   innerHTML (blur False (external_change ''b'' (focus (mount ''a'')))) \<noteq> ''b'' \<and>
   html (blur False (external_change ''b'' (focus (mount ''a'')))) = ''a''"
  by (simp add: mount_def focus_def external_change_def rerender_def sync_effect_def blur_def
        handleInput_def)

text \<open>
  C3, amended. While the surface holds focus, an external change of the content leaves
  its markup as it is. Losing focus does not bring the external value in: the markup
  stays, and unless the editor is read-only it is written back as the content of the
  block.
\<close>

theorem focused_surface_keeps_markup:
  assumes "focused s"
  shows "innerHTML (external_change v s) = innerHTML s \<and>
         focused (external_change v s) \<and>
         innerHTML (blur ro (external_change v s)) = innerHTML s \<and>
         (\<not> ro \<longrightarrow> html (blur ro (external_change v s)) = innerHTML s)"
  using assms
  by (simp add: external_change_def rerender_def sync_effect_def blur_def handleInput_def)

text \<open>
  C3, amended, on a surface mounted with \<open>a\<close>, focused, and changed to \<open>b\<close> from
  outside.
\<close>

theorem focused_surface_keeps_markup_witness:
  "focused (focus (mount ''a'')) \<and>
   innerHTML (external_change ''b'' (focus (mount ''a''))) = ''a'' \<and>
   innerHTML (blur False (external_change ''b'' (focus (mount ''a'')))) = ''a'' \<and>
   html (blur False (external_change ''b'' (focus (mount ''a'')))) = ''a''"
proof -
  have f: "focused (focus (mount ''a''))" by (simp add: focus_def)
  have i: "innerHTML (focus (mount ''a'')) = ''a''" by (simp add: focus_def mount_def)
  from focused_surface_keeps_markup[OF f, of "''b''" False] f i show ?thesis by simp
qed

section \<open>Retyping a block (C4)\<close>

text \<open>
  C4. \<open>retype\<close> changes no id and no field other than the type: content, src, width,
  caption, align and language of every block stay, so nothing is erased. After
  \<open>retype i A\<close>, \<open>retype i B\<close>, \<open>retype i A\<close> the sequence is what one \<open>retype i A\<close>
  makes of it.
\<close>

theorem retype_preserves_fields:
  "map block_id (blocks (retype i A e)) = map block_id (blocks e) \<and>
   map content (blocks (retype i A e)) = map content (blocks e) \<and>
   map src (blocks (retype i A e)) = map src (blocks e) \<and>
   map width (blocks (retype i A e)) = map width (blocks e) \<and>
   map caption (blocks (retype i A e)) = map caption (blocks e) \<and>
   map align (blocks (retype i A e)) = map align (blocks e) \<and>
   map language (blocks (retype i A e)) = map language (blocks e) \<and>
   blocks (retype i A (retype i B (retype i A e))) = blocks (retype i A e)"
  by (simp add: blocks_retype readOnly_retype)

section \<open>Resizing (C5)\<close>

text \<open>
  C5. During a drag that \<open>handleResize\<close> has started, a mouse move that asks for the
  width \<open>w = attempted_width d x\<close> stores \<open>max 20 (min 100 w)\<close> on the block, a value
  between 20 and 100; the parent width divided by is never 0.
\<close>

theorem resize_width_clamped:
  assumes "handleResize ro x0 offsetWidth parentOffsetWidth = Some d"
  shows "onMouseMove ro bs block d x
           = [OnChange (map (\<lambda>b. if block_id b = block_id block
                                  then b\<lparr>width := Some (max 20 (min 100 (attempted_width d x)))\<rparr>
                                  else b) bs),
              SetMenuOpenBlockId None] \<and>
         20 \<le> max 20 (min 100 (attempted_width d x)) \<and>
         max 20 (min 100 (attempted_width d x)) \<le> 100 \<and>
         parentWidth d \<noteq> 0"
proof -
  from assms have ro: "\<not> ro" and d: "d = \<lparr> startX = x0, startWidth = num_or offsetWidth 0,
      parentWidth = num_or parentOffsetWidth 1 \<rparr>"
    by (auto simp: handleResize_def split: if_splits)
  have pw: "parentWidth d \<noteq> 0"
    by (simp add: d num_or_def split: option.splits)
  have clamp: "min 100 (max 20 w) = max 20 (min 100 w)" for w :: real
    by (simp add: min_def max_def)
  have sp: "spread b (no_updates\<lparr>p_width := Some (Some w)\<rparr>) = b\<lparr>width := Some w\<rparr>" for b w
    by (simp add: spread_def no_updates_def)
  have "onMouseMove ro bs block d x
           = [OnChange (map (\<lambda>b. if block_id b = block_id block
                                  then b\<lparr>width := Some (max 20 (min 100 (attempted_width d x)))\<rparr>
                                  else b) bs),
              SetMenuOpenBlockId None]"
    using ro by (simp add: onMouseMove_def updateBlock_def Let_def sp clamp)
  with pw show ?thesis by simp
qed

text \<open>
  C5 on an image of undefined width in a container of 1000 pixels, dragged by 500
  pixels: 150 percent are asked for and 100 are stored.
\<close>

theorem resize_width_clamped_witness:
  "handleResize False 0 (Some 1000) (Some 1000)
     = Some \<lparr> startX = 0, startWidth = 1000, parentWidth = 1000 \<rparr> \<and>
   attempted_width \<lparr> startX = 0, startWidth = 1000, parentWidth = 1000 \<rparr> 500 = 150 \<and>
   onMouseMove False [(plain_block ''b3'' ImageBlock '''')\<lparr>width := None\<rparr>]
       ((plain_block ''b3'' ImageBlock '''')\<lparr>width := None\<rparr>)
       \<lparr> startX = 0, startWidth = 1000, parentWidth = 1000 \<rparr> 500
     = [OnChange [(plain_block ''b3'' ImageBlock '''')\<lparr>width := Some 100\<rparr>], SetMenuOpenBlockId None]"
proof -
  have h: "handleResize False 0 (Some 1000) (Some 1000)
             = Some \<lparr> startX = 0, startWidth = 1000, parentWidth = 1000 \<rparr>"
    by (simp add: handleResize_def num_or_def)
  have a: "attempted_width \<lparr> startX = 0, startWidth = 1000, parentWidth = 1000 \<rparr> 500 = 150"
    by (simp add: attempted_width_def)
  from resize_width_clamped[OF h, of "[(plain_block ''b3'' ImageBlock '''')\<lparr>width := None\<rparr>]"
         "(plain_block ''b3'' ImageBlock '''')\<lparr>width := None\<rparr>" 500] h a
  show ?thesis by (simp add: plain_block_def)
qed

section \<open>Focus after a removal (C6)\<close>

text \<open>
  C6. A block sequence has pairwise distinct ids. In such a sequence of more than one
  block, removing the block at index \<open>i\<close> leaves the other blocks in their order; for
  \<open>i > 0\<close> the focus goes to the id of the block that was at index \<open>i - 1\<close>, for
  \<open>i = 0\<close> no focus is set.
\<close>

theorem removeBlock_focus_predecessor:
  assumes "distinct (map block_id bs)" and "1 < length bs" and "i < length bs"
  shows "removeBlock False bs (block_id (bs ! i))
           = OnChange (take i bs @ drop (Suc i) bs) #
             (if 0 < i then [SetActiveBlockId (Some (block_id (bs ! (i - 1))))] else [])"
proof -
  let ?new = "filter (\<lambda>b. block_id b \<noteq> block_id (bs ! i)) bs"
  have idx: "findIndex (\<lambda>b. block_id b = block_id (bs ! i)) bs = int i"
    using assms(1,3) by (rule findIndex_distinct)
  have new: "?new = take i bs @ drop (Suc i) bs"
    using assms(1,3) by (rule filter_distinct_removes_one)
  show ?thesis
  proof (cases "0 < i")
    case False
    with idx new assms(2) show ?thesis
      by (simp add: removeBlock_def)
  next
    case True
    then have k: "i - 1 < i" by simp
    have len: "i - 1 < length ?new"
      using new assms(3) True by simp
    have nth: "?new ! (i - 1) = bs ! (i - 1)"
      using new k assms(3) by (simp add: nth_append)
    have "nat (int i - 1) = i - 1" using True by simp
    with idx new len nth True assms(2) show ?thesis
      by (simp add: removeBlock_def Let_def)
  qed
qed

text \<open>
  C6 on the three-block post, at index 1 and at index 0.
\<close>

theorem removeBlock_focus_predecessor_witness:
  "distinct (map block_id three_blocks) \<and> 1 < length three_blocks \<and>
   removeBlock False three_blocks (block_id (three_blocks ! 1))
     = [OnChange [three_blocks ! 0, three_blocks ! 2], SetActiveBlockId (Some ''b1'')] \<and>
   removeBlock False three_blocks (block_id (three_blocks ! 0))
     = [OnChange [three_blocks ! 1, three_blocks ! 2]]"
proof -
  have d: "distinct (map block_id three_blocks)" and l: "1 < length three_blocks"
    by (simp_all add: three_blocks_def plain_block_def)
  have i1: "1 < length three_blocks" and i0: "0 < length three_blocks"
    by (simp_all add: three_blocks_def)
  show ?thesis
    using removeBlock_focus_predecessor[OF d l i1] removeBlock_focus_predecessor[OF d l i0] d l
    by (simp add: three_blocks_def plain_block_def)
qed

section \<open>Pasting an image (C7)\<close>

text \<open>
  C7, as the specification states it, fails. \<open>handlePaste\<close> returns at the first item
  whose type contains \<^verbatim>\<open>image\<close>, also when \<^verbatim>\<open>getAsFile()\<close> gives no file for it. A
  clipboard that holds an SVG string item before a PNG file carries image data, yet the
  default paste is prevented and no call is made: the paragraph stays as it is.
\<close>

theorem paste_image_not_converted_counterexample:
  "indexOf ''image/png'' ''image'' \<noteq> -1 \<and>
   paste False [plain_block ''1'' Paragraph ''draft''] ''1''
     [\<lparr> item_type = ''image/svg+xml'', getAsFile = None \<rparr>,
      \<lparr> item_type = ''image/png'',
        getAsFile = Some (File (Some ''data:image/png;base64,iVBORw0KGgo='')) \<rparr>]
     = (True, [])"
  by (simp add: paste_def Let_def)

text \<open>
  C7, amended. When the first item of the clipboard whose type contains \<^verbatim>\<open>image\<close> is a
  file that the reader loads as the data URI \<open>url\<close>, the default paste is prevented and
  the block of the given id is replaced by the same block with type image, empty content
  and \<open>src = url\<close>; no id changes.
\<close>

theorem paste_image_converts_block:
  assumes "find (\<lambda>it. indexOf (item_type it) ''image'' \<noteq> -1) items = Some it"
    and "getAsFile it = Some (File (Some url))"
  shows "paste False bs i items
           = (True,
              [OnChange (map (\<lambda>b. if block_id b = i
                                   then b\<lparr>block_type := ImageBlock, content := '''', src := Some url\<rparr>
                                   else b) bs),
               SetMenuOpenBlockId None]) \<and>
         map block_id (map (\<lambda>b. if block_id b = i
                                   then b\<lparr>block_type := ImageBlock, content := '''', src := Some url\<rparr>
                                   else b) bs) = map block_id bs"
proof -
  have hp: "handlePaste items = Prevented (Some (File (Some url)))"
    using handlePaste_find[OF assms(1)] assms(2) by simp
  have sp: "spread b (no_updates\<lparr>p_type := Some ImageBlock, p_src := Some (Some url),
                                  p_content := Some ''''\<rparr>)
              = b\<lparr>block_type := ImageBlock, content := '''', src := Some url\<rparr>" for b
    by (simp add: spread_def no_updates_def)
  have "paste False bs i items
           = (True,
              [OnChange (map (\<lambda>b. if block_id b = i
                                   then b\<lparr>block_type := ImageBlock, content := '''', src := Some url\<rparr>
                                   else b) bs),
               SetMenuOpenBlockId None])"
    by (simp add: paste_def hp reader_onload_def updateBlock_def sp)
  then show ?thesis by simp
qed

text \<open>
  C7, amended, on a paragraph holding the text \<open>draft\<close>, with a clipboard of a text
  item and a PNG file.
\<close>

theorem paste_image_converts_block_witness:
  "find (\<lambda>it. indexOf (item_type it) ''image'' \<noteq> -1)
     [\<lparr> item_type = ''text/html'', getAsFile = None \<rparr>,
      \<lparr> item_type = ''image/png'', getAsFile = Some (File (Some ''data:image/png;base64,iVBORw0KGgo='')) \<rparr>]
     = Some \<lparr> item_type = ''image/png'',
              getAsFile = Some (File (Some ''data:image/png;base64,iVBORw0KGgo='')) \<rparr> \<and>
   paste False [plain_block ''1'' Paragraph ''draft''] ''1''
     [\<lparr> item_type = ''text/html'', getAsFile = None \<rparr>,
      \<lparr> item_type = ''image/png'', getAsFile = Some (File (Some ''data:image/png;base64,iVBORw0KGgo='')) \<rparr>]
     = (True,
        [OnChange [(plain_block ''1'' ImageBlock '''')\<lparr>src := Some ''data:image/png;base64,iVBORw0KGgo=''\<rparr>],
         SetMenuOpenBlockId None])"
proof -
  let ?png = "\<lparr> item_type = ''image/png'',
                 getAsFile = Some (File (Some ''data:image/png;base64,iVBORw0KGgo='')) \<rparr>"
  have f: "find (\<lambda>it. indexOf (item_type it) ''image'' \<noteq> -1)
             [\<lparr> item_type = ''text/html'', getAsFile = None \<rparr>, ?png] = Some ?png"
    by (simp add: Let_def)
  have g: "getAsFile ?png = Some (File (Some ''data:image/png;base64,iVBORw0KGgo=''))"
    by simp
  from paste_image_converts_block[OF f g, of "[plain_block ''1'' Paragraph ''draft'']" "''1''"] f
  show ?thesis by (simp add: plain_block_def)
qed

section \<open>Blocks of an unknown type (C8)\<close>

text \<open>
  C8, as the specification states it, fails for the renderer of the block editor:
  \<open>renderBlockContent\<close> shows a block of a type that is no member of \<^verbatim>\<open>BlockType\<close> as a
  plain text surface with its content.
\<close>

theorem editor_renders_unknown_type_counterexample:
  "block_type (plain_block ''b9'' ''callout'' ''Note'')
     \<notin> {Paragraph, Heading1, Heading2, Heading3, ImageBlock, Video, Quote, List, OrderedList,
         Code, Divider} \<and>
   renderBlockContent (plain_block ''b9'' ''callout'' ''Note'') = RichText ''div'' ''Note''"
  by (simp add: renderBlockContent_def plain_block_def BlockType_defs)

text \<open>
  C8, amended. The public post page renders nothing for a block whose type is none of
  heading 1, heading 2, paragraph, quote and image, and the blocks around it are rendered
  as without it. The renderer of the block editor does not fail either, but it renders a
  block of any type it has no case for as a plain text surface with the content of the
  block.
\<close>

theorem unknown_type_rendering:
  "(block_type b \<notin> {Heading1, Heading2, Paragraph, Quote, ImageBlock} \<longrightarrow>
      PostDetailView_block b = None \<and>
      PostDetailView_blocks (xs @ [b] @ ys) = PostDetailView_blocks xs @ PostDetailView_blocks ys) \<and>
   (block_type b \<notin> {Heading1, Heading2, Heading3, Quote, Code, List, OrderedList, ImageBlock,
                     Video, Divider} \<longrightarrow>
      renderBlockContent b = RichText ''div'' (content b))"
  by (simp add: PostDetailView_block_def PostDetailView_blocks_def renderBlockContent_def
        List.map_filter_def)

text \<open>
  C8, amended, on a block of type \<open>callout\<close> between a heading and a paragraph.
\<close>

theorem unknown_type_rendering_witness:
  "block_type (plain_block ''b9'' ''callout'' ''Note'') \<notin> {Heading1, Heading2, Paragraph, Quote, ImageBlock} \<and>
   block_type (plain_block ''b9'' ''callout'' ''Note'')
     \<notin> {Heading1, Heading2, Heading3, Quote, Code, List, OrderedList, ImageBlock, Video, Divider} \<and>
   PostDetailView_block (plain_block ''b9'' ''callout'' ''Note'') = None \<and>
   PostDetailView_blocks ([plain_block ''b1'' Heading1 ''Arrival''] @
                          [plain_block ''b9'' ''callout'' ''Note''] @
                          [plain_block ''b2'' Paragraph ''Kyoto''])
     = [Element ''h2'' [Text ''Arrival''], Element ''p'' [Text ''Kyoto'']] \<and>
   renderBlockContent (plain_block ''b9'' ''callout'' ''Note'') = RichText ''div'' ''Note''"
proof -
  have a: "block_type (plain_block ''b9'' ''callout'' ''Note'')
             \<notin> {Heading1, Heading2, Paragraph, Quote, ImageBlock}"
    and b: "block_type (plain_block ''b9'' ''callout'' ''Note'')
             \<notin> {Heading1, Heading2, Heading3, Quote, Code, List, OrderedList, ImageBlock, Video, Divider}"
    by (simp_all add: plain_block_def BlockType_defs)
  have c: "content (plain_block ''b9'' ''callout'' ''Note'') = ''Note''"
    by (simp add: plain_block_def)
  have l: "PostDetailView_blocks [plain_block ''b1'' Heading1 ''Arrival''] = [Element ''h2'' [Text ''Arrival'']]"
    and r: "PostDetailView_blocks [plain_block ''b2'' Paragraph ''Kyoto''] = [Element ''p'' [Text ''Kyoto'']]"
    by (simp_all add: PostDetailView_blocks_def PostDetailView_block_def List.map_filter_def
          plain_block_def BlockType_defs)
  from unknown_type_rendering[of "plain_block ''b9'' ''callout'' ''Note''"
         "[plain_block ''b1'' Heading1 ''Arrival'']" "[plain_block ''b2'' Paragraph ''Kyoto'']"]
       a b c l r
  show ?thesis by simp
qed

section \<open>Distinct ids (C9)\<close>

text \<open>
  C9, as the specification states it, fails. \<open>addBlock\<close> compares the id it draws with
  nothing: when the same id is drawn for two insertions, the sequence holds it twice.
\<close>

theorem id_collision_counterexample:
  "distinct (map block_id
     (blocks (handle (AddBlock ''1'' Paragraph ''k3j9x2m1q'') (BlockEditor initial_blocks False)))) \<and>
   \<not> distinct (map block_id
     (blocks (handle (AddBlock ''1'' Paragraph ''k3j9x2m1q'')
               (handle (AddBlock ''1'' Paragraph ''k3j9x2m1q'') (BlockEditor initial_blocks False)))))"
  by (simp add: BlockEditor_def initial_blocks_def plain_block_def addBlock_def
        splice_insert_def newBlock_def)

text \<open>
  C9, amended. On a sequence with pairwise distinct ids, removal and retyping keep the
  ids pairwise distinct; so does an update that carries no id, and so does an insertion
  whose drawn id is not yet in the sequence.
\<close>

theorem ids_stay_distinct:
  assumes "distinct (map block_id (blocks e))"
  shows "(newId \<notin> set (map block_id (blocks e)) \<longrightarrow>
            distinct (map block_id (blocks (handle (AddBlock afterId ty newId) e)))) \<and>
         distinct (map block_id (blocks (handle (RemoveBlock i) e))) \<and>
         (p_id u = None \<longrightarrow> distinct (map block_id (blocks (handle (UpdateBlock i u) e)))) \<and>
         distinct (map block_id (blocks (retype i ty e)))"
proof -
  have "id_safe (RemoveBlock i) e" by (simp add: id_safe_def)
  moreover have "id_safe (UpdateBlock i (no_updates\<lparr>p_type := Some ty\<rparr>)) e"
    by (simp add: id_safe_def no_updates_def)
  moreover have "newId \<notin> set (map block_id (blocks e)) \<Longrightarrow> id_safe (AddBlock afterId ty newId) e"
    by (simp add: id_safe_def)
  moreover have "p_id u = None \<Longrightarrow> id_safe (UpdateBlock i u) e"
    by (simp add: id_safe_def)
  ultimately show ?thesis
    using handle_distinct[OF assms] unfolding retype_def by blast
qed

text \<open>
  C9, amended, on the three-block post: an insertion with an unused id, and an update of
  the content.
\<close>

theorem ids_stay_distinct_witness:
  "distinct (map block_id three_blocks) \<and>
   ''k3j9x2m1q'' \<notin> set (map block_id three_blocks) \<and>
   p_id (no_updates\<lparr>p_content := Some ''draft''\<rparr>) = None \<and>
   distinct (map block_id
     (blocks (handle (AddBlock ''b2'' Paragraph ''k3j9x2m1q'') (BlockEditor three_blocks False)))) \<and>
   distinct (map block_id
     (blocks (handle (UpdateBlock ''b2'' (no_updates\<lparr>p_content := Some ''draft''\<rparr>))
               (BlockEditor three_blocks False))))"
proof -
  let ?e = "BlockEditor three_blocks False"
  have b: "blocks ?e = three_blocks" by (simp add: BlockEditor_def)
  have d: "distinct (map block_id (blocks ?e))"
    by (simp add: BlockEditor_def three_blocks_def plain_block_def)
  have f: "''k3j9x2m1q'' \<notin> set (map block_id (blocks ?e))"
    by (simp add: BlockEditor_def three_blocks_def plain_block_def)
  have p: "p_id (no_updates\<lparr>p_content := Some ''draft''\<rparr>) = None"
    by (simp add: no_updates_def)
  from ids_stay_distinct[OF d, of "''k3j9x2m1q''" "''b2''" Paragraph "''b2''"
         "no_updates\<lparr>p_content := Some ''draft''\<rparr>"] d f p
  show ?thesis unfolding b by blast
qed

section \<open>Read-only mode (C10)\<close>

text \<open>
  C10. In read-only mode each of \<open>updateBlock\<close>, \<open>addBlock\<close> and \<open>removeBlock\<close> returns
  at once: it makes no call at all, so none on the host's \<^verbatim>\<open>onChange\<close>, and a read-only
  editor is left as it is by every action.
\<close>

theorem readOnly_no_onChange:
  "updateBlock True bs i u = [] \<and> addBlock True bs afterId ty newId = [] \<and>
   removeBlock True bs i = [] \<and>
   (readOnly e \<longrightarrow> handle a e = e)"
  by (cases a) (simp_all add: updateBlock_def addBlock_def removeBlock_def)

text \<open>
  C10 on a read-only editor of the three-block post.
\<close>

theorem readOnly_no_onChange_witness:
  "readOnly (BlockEditor three_blocks True) \<and>
   handle (RemoveBlock ''b2'') (BlockEditor three_blocks True) = BlockEditor three_blocks True"
  using readOnly_no_onChange
    [of three_blocks "''b2''" no_updates "''b2''" Paragraph "''k3j9x2m1q''"
        "BlockEditor three_blocks True" "RemoveBlock ''b2''"]
  by (simp add: BlockEditor_def)

end
